theory Spec2Isabelle
  imports Main
begin

section \<open>Python string and path primitives used by decompress\_videos.py\<close>

type_synonym path = string

text \<open>\<^verbatim>\<open>s.startswith(p)\<close> and \<^verbatim>\<open>s.endswith(p)\<close>.\<close>

definition startswith :: "string \<Rightarrow> string \<Rightarrow> bool" where
  "startswith s p = (take (length p) s = p)"

definition endswith :: "string \<Rightarrow> string \<Rightarrow> bool" where
  "endswith s p = (length p \<le> length s \<and> drop (length s - length p) s = p)"

text \<open>
  \<^verbatim>\<open>s.replace(old, new)\<close>: every non-overlapping occurrence of \<open>old\<close>, scanning from
  the left, is replaced. With an empty \<open>old\<close> Python puts \<open>new\<close> before every
  character and at the end. After a match at \<open>c # cs\<close> the scan resumes
  \<open>length old\<close> characters further, that is at \<open>drop (length old - 1) cs\<close>.
\<close>

fun str_replace :: "string \<Rightarrow> string \<Rightarrow> string \<Rightarrow> string" where
  "str_replace old new [] = (if old = [] then new else [])"
| "str_replace old new (c # cs) =
     (if old = [] then new @ c # str_replace old new cs
      else if take (length old) (c # cs) = old
        then new @ str_replace old new (drop (length old - 1) cs)
      else c # str_replace old new cs)"

text \<open>\<^verbatim>\<open>os.path.join(a, b)\<close> (posixpath, two components).\<close>

definition path_join :: "path \<Rightarrow> path \<Rightarrow> path" where
  "path_join a b =
     (if startswith b ''/'' then b
      else if a = [] \<or> endswith a ''/'' then a @ b
      else a @ ''/'' @ b)"

text \<open>\<^verbatim>\<open>os.path.basename(p)\<close>: what follows the last slash.\<close>

definition basename :: "path \<Rightarrow> string" where
  "basename p = rev (takeWhile (\<lambda>c. c \<noteq> CHR ''/'') (rev p))"

text \<open>\<^verbatim>\<open>s.split('.')[0]\<close>: what precedes the first dot (all of \<open>s\<close> when it has none).\<close>

definition split_dot_first :: "string \<Rightarrow> string" where
  "split_dot_first s = takeWhile (\<lambda>c. c \<noteq> CHR ''.'') s"

text \<open>
  Decimal digits of a natural number, most significant first, as \<^verbatim>\<open>str(n)\<close> and the
  \<^verbatim>\<open>d\<close> presentation type print them.
\<close>

definition digit_char :: "nat \<Rightarrow> char" where
  "digit_char d = ''0123456789'' ! d"

function digits :: "nat \<Rightarrow> string" where
  "digits n = (if n < 10 then [digit_char n] else digits (n div 10) @ [digit_char (n mod 10)])"
  by pat_completeness auto
termination
  by (relation "measure id") auto

declare digits.simps [simp del]

text \<open>
  \<^verbatim>\<open>"{:08d}".format(n)\<close> for \<open>n \<ge> 0\<close>: zero-padded on the left to a minimum width of 8;
  a longer number is printed in full.
\<close>

definition format_08d :: "nat \<Rightarrow> string" where
  "format_08d n = replicate (8 - length (digits n)) (CHR ''0'') @ digits n"

section \<open>The world the program acts on\<close>

text \<open>
  A decoded frame is opaque. A regular file holds a video (the results of the decoder's
  successive reads, \<open>None\<close> for an unsuccessful one; a read past the end of the list is
  unsuccessful too), an image written from a frame, or bytes the decoder cannot open.
\<close>

type_synonym frame = nat

datatype content = Video "frame option list" | Jpg frame | Other

datatype level = ERROR | INFO

datatype pyexc = TypeError | OpenError | ExtractError | CreateError | FileNotFoundError | SystemExit

text \<open>The Python values the modelled expressions produce.\<close>

datatype pyval = PNone | PInt int | PStr string | PExc pyexc

text \<open>The calls to the outside, recorded in the order they are made.\<close>

datatype call =
    CallExtract string path
  | CallCapture path
  | CallImwrite path frame
  | CallRelease
  | CallRemove path
  | CallMakedirs path
  | CallRmtree path
  | CallReaderClose path
  | CallWriterCreate path
  | CallWriterClose path

record out_archive =
  entries :: "(string \<times> (path \<times> content) list) list"
  finalized :: bool

record world =
  files :: "(path \<times> content) list"
  dirs :: "path list"
  archives :: "(path \<times> out_archive) list"
  log :: "(level \<times> string) list"
  calls :: "call list"

text \<open>
  What the run cannot decide by itself: which input archives exist and what they hold
  (\<open>None\<close>: the archive cannot be opened), where a file can be created, and what a
  glob pattern matches.
\<close>

record env =
  archive :: "path \<Rightarrow> (string \<times> content) list option"
  writable :: "path \<Rightarrow> bool"
  glob :: "string \<Rightarrow> path list"

definition put_file :: "path \<Rightarrow> content \<Rightarrow> (path \<times> content) list \<Rightarrow> (path \<times> content) list" where
  "put_file p c fs = (p, c) # filter (\<lambda>e. fst e \<noteq> p) fs"

definition record_call :: "call \<Rightarrow> world \<Rightarrow> world" where
  "record_call c s = s\<lparr>calls := calls s @ [c]\<rparr>"

definition logger_error :: "string \<Rightarrow> world \<Rightarrow> world" where
  "logger_error msg s = s\<lparr>log := log s @ [(ERROR, msg)]\<rparr>"

definition logger_info :: "string \<Rightarrow> world \<Rightarrow> world" where
  "logger_info msg s = s\<lparr>log := log s @ [(INFO, msg)]\<rparr>"

text \<open>\<^verbatim>\<open>a + b\<close> on the values that occur: only two strings concatenate.\<close>

fun py_add :: "pyval \<Rightarrow> pyval \<Rightarrow> pyexc + pyval" where
  "py_add (PStr a) (PStr b) = Inr (PStr (a @ b))"
| "py_add (PInt a) (PInt b) = Inr (PInt (a + b))"
| "py_add _ _ = Inl TypeError"

subsection \<open>Filesystem calls\<close>

text \<open>
  \<^verbatim>\<open>os.makedirs(p, exist_ok=True)\<close>; only the directory named is tracked, not the
  intermediate ones.
\<close>

definition os_makedirs :: "path \<Rightarrow> world \<Rightarrow> world" where
  "os_makedirs p s = record_call (CallMakedirs p) (s\<lparr>dirs := List.insert p (dirs s)\<rparr>)"

text \<open>\<^verbatim>\<open>os.remove(p)\<close> raises when there is no such file.\<close>

definition os_remove :: "path \<Rightarrow> world \<Rightarrow> (pyexc + pyval) \<times> world" where
  "os_remove p s =
     (if p \<in> fst ` set (files s)
      then (Inr PNone, record_call (CallRemove p) (s\<lparr>files := filter (\<lambda>e. fst e \<noteq> p) (files s)\<rparr>))
      else (Inl FileNotFoundError, record_call (CallRemove p) s))"

definition dir_prefix :: "path \<Rightarrow> path" where
  "dir_prefix d = (if endswith d ''/'' then d else d @ ''/'')"

definition is_under :: "path \<Rightarrow> path \<Rightarrow> bool" where
  "is_under d p = (p = d \<or> startswith p (dir_prefix d))"

text \<open>\<^verbatim>\<open>shutil.rmtree(d)\<close> raises when the directory does not exist.\<close>

definition shutil_rmtree :: "path \<Rightarrow> world \<Rightarrow> (pyexc + pyval) \<times> world" where
  "shutil_rmtree d s =
     (if d \<in> set (dirs s)
      then (Inr PNone, record_call (CallRmtree d)
              (s\<lparr>files := filter (\<lambda>e. \<not> is_under d (fst e)) (files s),
                 dirs := filter (\<lambda>q. \<not> is_under d q) (dirs s)\<rparr>))
      else (Inl FileNotFoundError, record_call (CallRmtree d) s))"

subsection \<open>The video decoder (cv2)\<close>

record capture =
  opened :: bool
  pending :: "frame option list"

text \<open>\<^verbatim>\<open>cv2.VideoCapture(p)\<close>: opened exactly when \<open>p\<close> holds a video.\<close>

definition VideoCapture :: "path \<Rightarrow> world \<Rightarrow> capture \<times> world" where
  "VideoCapture p s =
     ((case map_of (files s) p of
         Some (Video rs) \<Rightarrow> \<lparr>opened = True, pending = rs\<rparr>
       | _ \<Rightarrow> \<lparr>opened = False, pending = []\<rparr>),
      record_call (CallCapture p) s)"

definition isOpened :: "capture \<Rightarrow> bool" where
  "isOpened v = opened v"

text \<open>\<^verbatim>\<open>video.read()\<close>: \<open>Some frame\<close> is \<^verbatim>\<open>(True, frame)\<close>, \<open>None\<close> is \<^verbatim>\<open>(False, None)\<close>.\<close>

definition video_read :: "capture \<Rightarrow> frame option \<times> capture" where
  "video_read v =
     (if opened v
      then (case pending v of [] \<Rightarrow> (None, v) | r # rs \<Rightarrow> (r, v\<lparr>pending := rs\<rparr>))
      else (None, v))"

definition video_release :: "capture \<Rightarrow> world \<Rightarrow> capture \<times> world" where
  "video_release v s = (v\<lparr>opened := False\<rparr>, record_call CallRelease s)"

text \<open>
  \<^verbatim>\<open>cv2.imwrite(p, frame)\<close> returns whether the image was written; it does not raise
  when the file cannot be created.
\<close>

definition imwrite :: "env \<Rightarrow> path \<Rightarrow> frame \<Rightarrow> world \<Rightarrow> bool \<times> world" where
  "imwrite e p fr s =
     (if writable e p
      then (True, record_call (CallImwrite p fr) (s\<lparr>files := put_file p (Jpg fr) (files s)\<rparr>))
      else (False, record_call (CallImwrite p fr) s))"

subsection \<open>The archive reader and writer\<close>

text \<open>
  \<^verbatim>\<open>TarArchiveReader\<close> and \<^verbatim>\<open>TarArchiveWriter\<close> are imported from utils/storage.py,
  which is not among the sources; they are modelled from section 4.1 and 4.2 of the
  specification.
\<close>

record reader =
  rpath :: path
  members :: "(string \<times> content) list"

text \<open>
  Modelled from the spec: the constructor of \<^verbatim>\<open>TarArchiveReader\<close>, which is missing.
  \<^verbatim>\<open>open(path)\<close> gives a reader, or fails with OpenError when the file is missing,
  unreadable or not a valid archive.
\<close>

definition TarArchiveReader :: "env \<Rightarrow> path \<Rightarrow> pyexc + reader" where
  "TarArchiveReader e p =
     (case archive e p of
        None \<Rightarrow> Inl OpenError
      | Some ms \<Rightarrow> Inr \<lparr>rpath = p, members = ms\<rparr>)"

text \<open>
  Modelled from the spec: \<^verbatim>\<open>TarArchiveReader.get_list\<close>, which is missing. \<^verbatim>\<open>list()\<close> gives
  the member names in the archive's internal order.
\<close>

definition get_list :: "reader \<Rightarrow> string list" where
  "get_list rd = map fst (members rd)"

text \<open>
  Modelled from the spec: \<^verbatim>\<open>TarArchiveReader.extract_file\<close>, which is missing.
  \<^verbatim>\<open>extract(name, destDir)\<close> fails with ExtractError if the name is not present or the
  write to destDir fails, and otherwise writes exactly one file into destDir at a path
  derived from the name; that path is \<^verbatim>\<open>os.path.join(destDir, name)\<close>, where the caller
  opens the file.
\<close>

definition extract_file :: "env \<Rightarrow> reader \<Rightarrow> string \<Rightarrow> path \<Rightarrow> world \<Rightarrow> (pyexc + pyval) \<times> world" where
  "extract_file e rd name dest s =
     (case map_of (members rd) name of
        None \<Rightarrow> (Inl ExtractError, record_call (CallExtract name dest) s)
      | Some c \<Rightarrow>
          if writable e (path_join dest name)
          then (Inr PNone, record_call (CallExtract name dest)
                  (s\<lparr>files := put_file (path_join dest name) c (files s)\<rparr>))
          else (Inl ExtractError, record_call (CallExtract name dest) s))"

text \<open>
  Modelled from the spec: \<^verbatim>\<open>TarArchiveReader.close\<close>, which is missing. \<^verbatim>\<open>close()\<close>
  releases the reader.
\<close>

definition reader_close :: "reader \<Rightarrow> world \<Rightarrow> world" where
  "reader_close rd s = record_call (CallReaderClose (rpath rd)) s"

text \<open>The writer carries the entries added so far, one per \<^verbatim>\<open>add_file\<close>.\<close>

record writer =
  wpath :: path
  added :: "(string \<times> (path \<times> content) list) list"

text \<open>
  Modelled from the spec: the constructor of \<^verbatim>\<open>TarArchiveWriter\<close>, which is missing.
  \<^verbatim>\<open>create(path)\<close> gives a writer, or fails with CreateError if the destination cannot
  be opened for write; the new archive is empty and not yet finalized.
\<close>

definition TarArchiveWriter :: "env \<Rightarrow> path \<Rightarrow> world \<Rightarrow> (pyexc + writer) \<times> world" where
  "TarArchiveWriter e p s =
     (if writable e p
      then (Inr \<lparr>wpath = p, added = []\<rparr>,
            record_call (CallWriterCreate p)
              (s\<lparr>archives := (p, \<lparr>entries = [], finalized = False\<rparr>)
                                 # filter (\<lambda>a. fst a \<noteq> p) (archives s)\<rparr>))
      else (Inl CreateError, record_call (CallWriterCreate p) s))"

text \<open>
  Modelled from the spec: what \<^verbatim>\<open>addFile\<close> reads from \<open>sourcePath\<close>, which is missing. A
  single file is taken as it is; of a directory, all the files below it, with their
  paths relative to it.
\<close>

definition tree_of :: "path \<Rightarrow> world \<Rightarrow> (path \<times> content) list" where
  "tree_of src s =
     (case map_of (files s) src of
        Some c \<Rightarrow> [([], c)]
      | None \<Rightarrow> map (\<lambda>x. (drop (length (dir_prefix src)) (fst x), snd x))
                  (filter (\<lambda>x. startswith (fst x) (dir_prefix src)) (files s)))"

text \<open>
  Modelled from the spec: \<^verbatim>\<open>TarArchiveWriter.add_file\<close>, which is missing.
  \<^verbatim>\<open>addFile(sourcePath, arcName)\<close> adds the contents of \<open>sourcePath\<close> under the name
  \<open>arcName\<close>. The spec lets it fail with WriteError on an I/O failure; the model has no
  such failure.
\<close>

definition add_file :: "writer \<Rightarrow> path \<Rightarrow> string \<Rightarrow> world \<Rightarrow> writer" where
  "add_file w src arcname s = w\<lparr>added := added w @ [(arcname, tree_of src s)]\<rparr>"

text \<open>
  Modelled from the spec: \<^verbatim>\<open>TarArchiveWriter.close\<close>, which is missing. \<^verbatim>\<open>close()\<close>
  finalizes the archive with the entries added.
\<close>

definition writer_close :: "writer \<Rightarrow> world \<Rightarrow> world" where
  "writer_close w s =
     record_call (CallWriterClose (wpath w))
       (s\<lparr>archives := (wpath w, \<lparr>entries = added w, finalized = True\<rparr>)
                          # filter (\<lambda>a. fst a \<noteq> wpath w) (archives s)\<rparr>)"

section \<open>decompress\_videos.py\<close>

subsection \<open>convert\_from\_tar\<close>

text \<open>
  The \<^verbatim>\<open>while video.isOpened()\<close> loop: a successful read writes the frame under the
  current \<open>frame_id\<close> and increments it (the result of \<^verbatim>\<open>imwrite\<close> is not looked at),
  an unsuccessful read leaves the loop. The function returns the final \<open>frame_id\<close>,
  the decoder and the world.
\<close>

function frame_loop :: "env \<Rightarrow> path \<Rightarrow> capture \<Rightarrow> nat \<Rightarrow> world \<Rightarrow> nat \<times> capture \<times> world" where
  "frame_loop e output_dir video frame_id s =
     (if isOpened video
      then (case video_read video of
              (Some frame, video') \<Rightarrow>
                frame_loop e output_dir video' (frame_id + 1)
                  (snd (imwrite e (path_join output_dir (format_08d frame_id @ ''.jpg'')) frame s))
            | (None, video') \<Rightarrow> (frame_id, video', s))
      else (frame_id, video, s))"
  by pat_completeness auto
termination
  by (relation "measure (\<lambda>(e, output_dir, video, frame_id, s). length (pending video))")
     (auto simp: video_read_def split: if_splits list.splits)

declare frame_loop.simps [simp del]

definition convert_from_tar ::
  "env \<Rightarrow> reader \<Rightarrow> string \<Rightarrow> path \<Rightarrow> path \<Rightarrow> world \<Rightarrow> (pyexc + pyval) \<times> world" where
  "convert_from_tar e tar_file video_name output_dir tmp_dir s =
     (case extract_file e tar_file video_name tmp_dir s of
        (Inl x, s1) \<Rightarrow> (Inl x, s1)
      | (Inr _, s1) \<Rightarrow>
          (case VideoCapture (path_join tmp_dir video_name) s1 of
             (video, s2) \<Rightarrow>
               (case frame_loop e output_dir video 0
                       (if \<not> isOpened video
                        then logger_error ''Error opening video stream or file!'' s2
                        else s2) of
                  (frame_id, video', s3) \<Rightarrow>
                    (case video_release video' s3 of
                       (video'', s4) \<Rightarrow> os_remove (path_join tmp_dir video_name) s4))))"

subsection \<open>convert\_to\_folder\<close>

text \<open>The \<^verbatim>\<open>for f in file_list\<close> loop of folder mode; an exception leaves it.\<close>

fun folder_entries ::
  "env \<Rightarrow> reader \<Rightarrow> path \<Rightarrow> path \<Rightarrow> string list \<Rightarrow> world \<Rightarrow> (pyexc + pyval) \<times> world" where
  "folder_entries e tar_file tar_filepath tmp_dir [] s = (Inr PNone, s)"
| "folder_entries e tar_file tar_filepath tmp_dir (f # fs) s =
     (if endswith f ''.mp4''
      then (case convert_from_tar e tar_file f
                   (path_join (str_replace ''.tar'' [] tar_filepath) (str_replace ''.mp4'' [] f))
                   tmp_dir
                   (os_makedirs
                      (path_join (str_replace ''.tar'' [] tar_filepath) (str_replace ''.mp4'' [] f)) s) of
              (Inl x, s1) \<Rightarrow> (Inl x, s1)
            | (Inr _, s1) \<Rightarrow> folder_entries e tar_file tar_filepath tmp_dir fs s1)
      else folder_entries e tar_file tar_filepath tmp_dir fs s)"

text \<open>
  The handler of a failed open evaluates \<^verbatim>\<open>"Cannot open {}. ".format(tar_filepath) + e\<close>
  before it can call \<^verbatim>\<open>logger.error\<close>.
\<close>

definition open_failed :: "path \<Rightarrow> pyexc \<Rightarrow> world \<Rightarrow> (pyexc + pyval) \<times> world" where
  "open_failed tar_filepath x s =
     (case py_add (PStr (''Cannot open '' @ tar_filepath @ ''. '')) (PExc x) of
        Inl err \<Rightarrow> (Inl err, s)
      | Inr (PStr msg) \<Rightarrow> (Inr PNone, logger_error msg s)
      | Inr _ \<Rightarrow> (Inl TypeError, s))"

text \<open>\<open>show_progress_bar\<close> only wraps the list in a progress bar.\<close>

definition convert_to_folder :: "env \<Rightarrow> path \<Rightarrow> path \<Rightarrow> bool \<Rightarrow> world \<Rightarrow> (pyexc + pyval) \<times> world" where
  "convert_to_folder e tar_filepath tmp_dir show_progress_bar s =
     (case TarArchiveReader e tar_filepath of
        Inl x \<Rightarrow> open_failed tar_filepath x s
      | Inr tar_file \<Rightarrow> folder_entries e tar_file tar_filepath tmp_dir (get_list tar_file) s)"

subsection \<open>convert\_to\_tar\<close>

definition tar_output_dir :: "path \<Rightarrow> string \<Rightarrow> path" where
  "tar_output_dir tar_filepath f =
     path_join (str_replace ''.tar'' ''_tmp'' tar_filepath) (split_dot_first (basename f))"

text \<open>The \<^verbatim>\<open>for f in file_list\<close> loop of tar mode, threading the archive writer.\<close>

fun tar_entries ::
  "env \<Rightarrow> reader \<Rightarrow> path \<Rightarrow> path \<Rightarrow> string list \<Rightarrow> writer \<Rightarrow> world \<Rightarrow> (pyexc + writer) \<times> world" where
  "tar_entries e tar_file tar_filepath tmp_dir [] tar_writer s = (Inr tar_writer, s)"
| "tar_entries e tar_file tar_filepath tmp_dir (f # fs) tar_writer s =
     (if endswith f ''.mp4''
      then (case convert_from_tar e tar_file f (tar_output_dir tar_filepath f) tmp_dir
                   (os_makedirs (tar_output_dir tar_filepath f) s) of
              (Inl x, s1) \<Rightarrow> (Inl x, s1)
            | (Inr _, s1) \<Rightarrow>
                (let tar_writer' = add_file tar_writer (tar_output_dir tar_filepath f)
                                     (split_dot_first (basename f)) s1
                 in case shutil_rmtree (tar_output_dir tar_filepath f) s1 of
                      (Inl x, s2) \<Rightarrow> (Inl x, s2)
                    | (Inr _, s2) \<Rightarrow>
                        tar_entries e tar_file tar_filepath tmp_dir fs tar_writer' s2))
      else tar_entries e tar_file tar_filepath tmp_dir fs tar_writer s)"

definition convert_to_tar :: "env \<Rightarrow> path \<Rightarrow> path \<Rightarrow> bool \<Rightarrow> world \<Rightarrow> (pyexc + pyval) \<times> world" where
  "convert_to_tar e tar_filepath tmp_dir show_progress_bar s =
     (case TarArchiveReader e tar_filepath of
        Inl x \<Rightarrow> open_failed tar_filepath x s
      | Inr tar_file \<Rightarrow>
          (case TarArchiveWriter e (str_replace ''.tar'' ''_decompressed.tar'' tar_filepath) s of
             (Inl x, s1) \<Rightarrow> (Inl x, s1)
           | (Inr tar_writer, s1) \<Rightarrow>
               (case tar_entries e tar_file tar_filepath tmp_dir (get_list tar_file) tar_writer s1 of
                  (Inl x, s2) \<Rightarrow> (Inl x, s2)
                | (Inr tar_writer', s2) \<Rightarrow>
                    (Inr PNone, writer_close tar_writer' (reader_close tar_file s2)))))"

subsection \<open>main\<close>

datatype mode = Folder | Tar



text \<open>\<^verbatim>\<open>CONVERT_MAP[args.mode]\<close>.\<close>

definition CONVERT_MAP :: "mode \<Rightarrow> env \<Rightarrow> path \<Rightarrow> path \<Rightarrow> bool \<Rightarrow> world \<Rightarrow> (pyexc + pyval) \<times> world" where
  "CONVERT_MAP m = (case m of Folder \<Rightarrow> convert_to_folder | Tar \<Rightarrow> convert_to_tar)"

text \<open>The sequential \<^verbatim>\<open>for f in files\<close> loop; an exception of a job leaves it.\<close>

fun run_jobs :: "env \<Rightarrow> mode \<Rightarrow> path \<Rightarrow> path list \<Rightarrow> world \<Rightarrow> (pyexc + pyval) \<times> world" where
  "run_jobs e m tmp [] s = (Inr PNone, s)"
| "run_jobs e m tmp (f # fs) s =
     (case CONVERT_MAP m e f tmp True (logger_info (''Processing '' @ f) s) of
        (Inl x, s1) \<Rightarrow> (Inl x, s1)
      | (Inr _, s1) \<Rightarrow> run_jobs e m tmp fs s1)"



section \<open>Notions used to state the properties\<close>



text \<open>The frames a video yields before its first unsuccessful read.\<close>

fun decoded_frames :: "frame option list \<Rightarrow> frame list" where
  "decoded_frames [] = []"
| "decoded_frames (None # rs) = []"
| "decoded_frames (Some fr # rs) = fr # decoded_frames rs"

definition frames_of :: "content \<Rightarrow> frame list" where
  "frames_of c = (case c of Video rs \<Rightarrow> decoded_frames rs | _ \<Rightarrow> [])"

definition decodable :: "content \<Rightarrow> bool" where
  "decodable c = (case c of Video rs \<Rightarrow> True | _ \<Rightarrow> False)"

text \<open>The path \<open>convert_from_tar\<close> writes frame \<open>i\<close> to.\<close>

definition frame_path :: "path \<Rightarrow> nat \<Rightarrow> path" where
  "frame_path output_dir i = path_join output_dir (format_08d i @ ''.jpg'')"

text \<open>The writes of the frame loop, one after the other.\<close>

definition write_frames :: "env \<Rightarrow> path \<Rightarrow> (nat \<times> frame) list \<Rightarrow> world \<Rightarrow> world" where
  "write_frames e output_dir ifs s =
     foldl (\<lambda>s' p. snd (imwrite e (frame_path output_dir (fst p)) (snd p) s')) s ifs"

text \<open>The world once a member is staged and the decoder was pointed at it.\<close>

definition staged :: "env \<Rightarrow> reader \<Rightarrow> string \<Rightarrow> path \<Rightarrow> content \<Rightarrow> world \<Rightarrow> world" where
  "staged e rd name tmp c s =
     record_call (CallCapture (path_join tmp name))
       (record_call (CallExtract name tmp)
          (s\<lparr>files := put_file (path_join tmp name) c (files s)\<rparr>))"

text \<open>A small archive, environment and empty world to run the program on.\<close>

definition example_world :: world where
  "example_world = \<lparr>files = [], dirs = [], archives = [], log = [], calls = []\<rparr>"

definition example_reader :: reader where
  "example_reader =
     \<lparr>rpath = ''videos.tar'',
      members = [(''clip1.mp4'', Video [Some 7, Some 8, None, Some 9]),
                 (''readme.txt'', Other),
                 (''bad.mp4'', Other)]\<rparr>"

definition example_env :: env where
  "example_env =
     \<lparr>archive = (\<lambda>p. if p = ''videos.tar'' then Some (members example_reader) else None),
      writable = (\<lambda>p. True),
      glob = (\<lambda>p. [''videos.tar''])\<rparr>"

text \<open>The calls a run added to the record.\<close>

definition new_calls :: "world \<Rightarrow> world \<Rightarrow> call list" where
  "new_calls s s' = drop (length (calls s)) (calls s')"

text \<open>How many frame writes a list of calls holds, and the paths the decoder was opened on.\<close>

definition frames_written :: "call list \<Rightarrow> nat" where
  "frames_written cs = length (filter (\<lambda>c. case c of CallImwrite p fr \<Rightarrow> True | _ \<Rightarrow> False) cs)"

definition capture_paths :: "call list \<Rightarrow> path list" where
  "capture_paths cs = concat (map (\<lambda>c. case c of CallCapture p \<Rightarrow> [p] | _ \<Rightarrow> []) cs)"


definition other_reader :: reader where
  "other_reader = \<lparr>rpath = ''other.tar'', members = [(''clip1.mp4'', Video [Some 1])]\<rparr>"

text \<open>The output directory of a member in folder mode.\<close>

definition folder_output_dir :: "path \<Rightarrow> string \<Rightarrow> path" where
  "folder_output_dir tar_filepath f =
     path_join (str_replace ''.tar'' [] tar_filepath) (str_replace ''.mp4'' [] f)"

text \<open>The environment in which every archive has lost its members that are not videos.\<close>

definition drop_non_videos :: "env \<Rightarrow> env" where
  "drop_non_videos e =
     e\<lparr>archive := (\<lambda>p. map_option (filter (\<lambda>m. endswith (fst m) ''.mp4'')) (archive e p))\<rparr>"

text \<open>Whether \<open>sub\<close> occurs in a string.\<close>

fun str_contains :: "string \<Rightarrow> string \<Rightarrow> bool" where
  "str_contains sub [] = (sub = [])"
| "str_contains sub (c # cs) = (take (length sub) (c # cs) = sub \<or> str_contains sub cs)"




text \<open>The name \<open>convert_to_tar\<close> gives the entry of a member in the output archive.\<close>

definition arcname_of :: "string \<Rightarrow> string" where
  "arcname_of f = split_dot_first (basename f)"

text \<open>An archive in a directory whose name contains \<^verbatim>\<open>.tar\<close>, with a video whose name has two dots.\<close>

definition dotted_env :: env where
  "dotted_env =
     \<lparr>archive = (\<lambda>p. if p = ''backup.tar/videos.tar''
                        then Some [(''cam/clip.v2.mp4'', Video [Some 5])] else None),
      writable = (\<lambda>p. True),
      glob = (\<lambda>p. [''backup.tar/videos.tar''])\<rparr>"

section \<open>Decimal frame names\<close>














section \<open>The frame loop\<close>

lemma frame_loop_closed: "\<not> opened v \<Longrightarrow> frame_loop e out v k s = (k, v, s)"
  by (subst frame_loop.simps) (simp add: isOpened_def)

lemma frame_loop_fold:
  "opened v \<Longrightarrow> pending v = rs \<Longrightarrow>
   frame_loop e out v k s =
     (k + length (decoded_frames rs),
      v\<lparr>pending := drop (Suc (length (decoded_frames rs))) rs\<rparr>,
      write_frames e out (enumerate k (decoded_frames rs)) s)"
proof (induction rs arbitrary: v k s)
  case Nil
  then show ?case
    by (subst frame_loop.simps) (simp add: isOpened_def video_read_def write_frames_def)
next
  case (Cons r rs)
  show ?case
  proof (cases r)
    case None
    with Cons.prems show ?thesis
      by (subst frame_loop.simps) (simp add: isOpened_def video_read_def write_frames_def)
  next
    case (Some fr)
    have "opened (v\<lparr>pending := rs\<rparr>)" "pending (v\<lparr>pending := rs\<rparr>) = rs"
      using Cons.prems by simp_all
    note ih = Cons.IH [OF this]
    show ?thesis
      using Cons.prems Some
      by (subst frame_loop.simps)
         (simp add: isOpened_def video_read_def ih write_frames_def frame_path_def)
  qed
qed

lemma imwrite_calls: "calls (snd (imwrite e p fr s)) = calls s @ [CallImwrite p fr]"
  by (simp add: imwrite_def record_call_def)

lemma imwrite_other:
  "log (snd (imwrite e p fr s)) = log s"
  "dirs (snd (imwrite e p fr s)) = dirs s"
  "archives (snd (imwrite e p fr s)) = archives s"
  by (simp_all add: imwrite_def record_call_def)

lemma write_frames_Nil: "write_frames e out [] s = s"
  by (simp add: write_frames_def)

lemma write_frames_Cons:
  "write_frames e out (p # ps) s = write_frames e out ps (snd (imwrite e (frame_path out (fst p)) (snd p) s))"
  by (simp add: write_frames_def)

lemma write_frames_calls:
  "calls (write_frames e out ifs s) =
     calls s @ map (\<lambda>p. CallImwrite (frame_path out (fst p)) (snd p)) ifs"
  by (induction ifs arbitrary: s) (simp_all add: write_frames_Nil write_frames_Cons imwrite_calls)

lemma write_frames_other:
  "log (write_frames e out ifs s) = log s"
  "dirs (write_frames e out ifs s) = dirs s"
  "archives (write_frames e out ifs s) = archives s"
  by (induction ifs arbitrary: s) (simp_all add: write_frames_Nil write_frames_Cons imwrite_other)

lemma map_of_put_file: "map_of (put_file p c fs) q = (if q = p then Some c else map_of fs q)"
proof -
  have "map_of (filter (\<lambda>e. fst e \<noteq> p) fs) q = map_of fs q" if "q \<noteq> p"
    using that by (induction fs) auto
  then show ?thesis by (simp add: put_file_def)
qed




lemma path_join_relative:
  "\<not> startswith b ''/'' \<Longrightarrow> path_join a b = (if a = [] \<or> endswith a ''/'' then a else a @ ''/'') @ b"
  by (simp add: path_join_def)



lemma write_frames_keeps:
  "p \<in> fst ` set (files s) \<Longrightarrow> p \<in> fst ` set (files (write_frames e out ifs s))"
proof (induction ifs arbitrary: s)
  case Nil
  then show ?case by (simp add: write_frames_Nil)
next
  case (Cons a ifs)
  have "p \<in> fst ` set (files (snd (imwrite e (frame_path out (fst a)) (snd a) s)))"
    using Cons.prems by (auto simp: imwrite_def record_call_def put_file_def image_iff)
  then show ?case
    unfolding write_frames_Cons by (rule Cons.IH)
qed

lemma record_call_files: "files (record_call c s) = files s"
  by (simp add: record_call_def)

lemma convert_from_tar_staged:
  assumes m: "map_of (members rd) name = Some c"
    and w: "writable e (path_join tmp name)"
  shows "convert_from_tar e rd name out tmp s =
     (Inr PNone,
      record_call (CallRemove (path_join tmp name))
        ((record_call CallRelease
            (write_frames e out (enumerate 0 (frames_of c))
               (if decodable c then staged e rd name tmp c s
                else logger_error ''Error opening video stream or file!'' (staged e rd name tmp c s))))
         \<lparr>files := filter (\<lambda>x. fst x \<noteq> path_join tmp name)
              (files (write_frames e out (enumerate 0 (frames_of c)) (staged e rd name tmp c s)))\<rparr>))"
proof -
  let ?p = "path_join tmp name"
  let ?s1 = "record_call (CallExtract name tmp) (s\<lparr>files := put_file ?p c (files s)\<rparr>)"
  let ?s2 = "staged e rd name tmp c s"
  let ?w = "write_frames e out (enumerate 0 (frames_of c))"
  have ex: "extract_file e rd name tmp s = (Inr PNone, ?s1)"
    using m w by (simp add: extract_file_def)
  have look: "map_of (files ?s1) ?p = Some c"
    by (simp add: record_call_def map_of_put_file)
  have inp: "?p \<in> fst ` set (files ?s2)"
    by (simp add: staged_def record_call_def put_file_def)
  have rem: "os_remove ?p (record_call CallRelease (?w t)) =
      (Inr PNone, record_call (CallRemove ?p)
         ((record_call CallRelease (?w t))\<lparr>files := filter (\<lambda>x. fst x \<noteq> ?p) (files (?w t))\<rparr>))"
    if "?p \<in> fst ` set (files t)" for t
    using write_frames_keeps [OF that, of e out "enumerate 0 (frames_of c)"]
    by (simp add: os_remove_def record_call_files)
  show ?thesis
  proof (cases "decodable c")
    case True
    then obtain rs where c: "c = Video rs"
      by (cases c) (simp_all add: decodable_def)
    have cap: "VideoCapture ?p ?s1 = (\<lparr>opened = True, pending = rs\<rparr>, ?s2)"
      using look c by (simp add: VideoCapture_def staged_def)
    have loop: "frame_loop e out \<lparr>opened = True, pending = rs\<rparr> 0 ?s2 =
        (0 + length (decoded_frames rs),
         \<lparr>opened = True, pending = rs\<rparr>\<lparr>pending := drop (Suc (length (decoded_frames rs))) rs\<rparr>,
         write_frames e out (enumerate 0 (decoded_frames rs)) ?s2)"
      by (rule frame_loop_fold) simp_all
    have fr: "frames_of c = decoded_frames rs"
      by (simp add: c frames_of_def)
    show ?thesis
      using rem [OF inp] True
      by (simp add: convert_from_tar_def ex cap loop isOpened_def video_release_def fr)
  next
    case False
    have cap: "VideoCapture ?p ?s1 = (\<lparr>opened = False, pending = []\<rparr>, ?s2)"
      using look False by (cases c) (simp_all add: VideoCapture_def staged_def decodable_def)
    have fr: "frames_of c = []"
      using False by (cases c) (simp_all add: frames_of_def decodable_def)
    have inp': "?p \<in> fst ` set (files (logger_error ''Error opening video stream or file!'' ?s2))"
      using inp by (simp add: logger_error_def)
    show ?thesis
      using rem [OF inp'] False
      by (simp add: convert_from_tar_def ex cap frame_loop_closed isOpened_def video_release_def fr
          write_frames_Nil logger_error_def)
  qed
qed

section \<open>Frame extraction\<close>






lemma convert_from_tar_calls:
  assumes "map_of (members rd) name = Some c" and "writable e (path_join tmp name)"
  shows "calls (snd (convert_from_tar e rd name out tmp s)) =
     calls s @ [CallExtract name tmp, CallCapture (path_join tmp name)]
       @ map (\<lambda>p. CallImwrite (frame_path out (fst p)) (snd p)) (enumerate 0 (frames_of c))
       @ [CallRelease, CallRemove (path_join tmp name)]"
  by (simp add: convert_from_tar_staged [OF assms] record_call_def write_frames_calls staged_def
      logger_error_def)

lemma convert_from_tar_files:
  assumes "map_of (members rd) name = Some c" and "writable e (path_join tmp name)"
  shows "files (snd (convert_from_tar e rd name out tmp s)) =
     filter (\<lambda>x. fst x \<noteq> path_join tmp name)
       (files (write_frames e out (enumerate 0 (frames_of c)) (staged e rd name tmp c s)))"
  by (simp add: convert_from_tar_staged [OF assms] record_call_def)

lemma convert_from_tar_result:
  assumes "map_of (members rd) name = Some c" and "writable e (path_join tmp name)"
  shows "fst (convert_from_tar e rd name out tmp s) = Inr PNone"
  by (simp add: convert_from_tar_staged [OF assms])

lemma convert_from_tar_log:
  assumes "map_of (members rd) name = Some c" and "writable e (path_join tmp name)"
  shows "log (snd (convert_from_tar e rd name out tmp s)) =
     log s @ (if decodable c then [] else [(ERROR, ''Error opening video stream or file!'')])"
  by (simp add: convert_from_tar_staged [OF assms] record_call_def write_frames_other staged_def
      logger_error_def)

lemma convert_from_tar_dirs:
  assumes "map_of (members rd) name = Some c" and "writable e (path_join tmp name)"
  shows "dirs (snd (convert_from_tar e rd name out tmp s)) = dirs s"
    and "archives (snd (convert_from_tar e rd name out tmp s)) = archives s"
  by (simp_all add: convert_from_tar_staged [OF assms] record_call_def write_frames_other staged_def
      logger_error_def)




section \<open>Cleanup after an entry\<close>

lemma convert_from_tar_new_calls:
  assumes "map_of (members rd) name = Some c" and "writable e (path_join tmp name)"
  shows "new_calls s (snd (convert_from_tar e rd name out tmp s)) =
     [CallExtract name tmp, CallCapture (path_join tmp name)]
       @ map (\<lambda>p. CallImwrite (frame_path out (fst p)) (snd p)) (enumerate 0 (frames_of c))
       @ [CallRelease, CallRemove (path_join tmp name)]"
  by (simp add: new_calls_def convert_from_tar_calls [OF assms])


lemma frames_written_imwrites:
  "frames_written (map (\<lambda>p. CallImwrite (f p) (g p)) xs) = length xs"
  by (induction xs) (simp_all add: frames_written_def)

lemma frames_written_append: "frames_written (xs @ ys) = frames_written xs + frames_written ys"
  by (simp add: frames_written_def)

lemma capture_paths_imwrites: "capture_paths (map (\<lambda>p. CallImwrite (f p) (g p)) xs) = []"
  by (induction xs) (simp_all add: capture_paths_def)

lemma capture_paths_append: "capture_paths (xs @ ys) = capture_paths xs @ capture_paths ys"
  by (simp add: capture_paths_def)




section \<open>A video the decoder cannot open\<close>

lemma filter_put_file: "filter (\<lambda>x. fst x \<noteq> p) (put_file p c fs) = filter (\<lambda>x. fst x \<noteq> p) fs"
  by (simp add: put_file_def)

lemma undecodable_files:
  assumes "map_of (members rd) name = Some c" and "writable e (path_join tmp name)"
    and "\<not> decodable c"
  shows "files (snd (convert_from_tar e rd name out tmp s)) =
         filter (\<lambda>x. fst x \<noteq> path_join tmp name) (files s)"
proof -
  have "frames_of c = []"
    using assms(3) by (cases c) (simp_all add: frames_of_def decodable_def)
  then show ?thesis
    by (simp add: convert_from_tar_files [OF assms(1,2)] write_frames_Nil staged_def
        record_call_files filter_put_file)
qed

lemma rmtree_after_makedirs:
  assumes "map_of (members rd) name = Some c" and "writable e (path_join tmp name)"
  shows "fst (shutil_rmtree d (snd (convert_from_tar e rd name d tmp (os_makedirs d s)))) = Inr PNone"
proof -
  have "d \<in> set (dirs (os_makedirs d s))"
    by (simp add: os_makedirs_def record_call_def)
  then show ?thesis
    by (simp add: shutil_rmtree_def convert_from_tar_dirs [OF assms])
qed

text \<open>
  Claim C7. When the staged member is not something the decoder can open,
  \<open>convert_from_tar\<close> logs one error, makes no frame write (the calls are the staging,
  the open, the release and the removal; the files are those from before, less the
  staged one), returns normally, and the loops of both modes go on with the entries
  that follow.
\<close>

theorem undecodable_video_logged_and_skipped:
  assumes "map_of (members tar_file) f = Some c"
    and "\<not> decodable c"
    and "writable e (path_join tmp f)"
    and "endswith f ''.mp4''"
  shows "fst (convert_from_tar e tar_file f output_dir tmp s) = Inr PNone
       \<and> log (snd (convert_from_tar e tar_file f output_dir tmp s)) =
           log s @ [(ERROR, ''Error opening video stream or file!'')]
       \<and> calls (snd (convert_from_tar e tar_file f output_dir tmp s)) =
           calls s @ [CallExtract f tmp, CallCapture (path_join tmp f), CallRelease,
                      CallRemove (path_join tmp f)]
       \<and> files (snd (convert_from_tar e tar_file f output_dir tmp s)) =
           filter (\<lambda>x. fst x \<noteq> path_join tmp f) (files s)
       \<and> folder_entries e tar_file tar_filepath tmp (f # fs) s =
           folder_entries e tar_file tar_filepath tmp fs
             (snd (convert_from_tar e tar_file f (folder_output_dir tar_filepath f) tmp
                     (os_makedirs (folder_output_dir tar_filepath f) s)))
       \<and> tar_entries e tar_file tar_filepath tmp (f # fs) tar_writer s =
           tar_entries e tar_file tar_filepath tmp fs
             (add_file tar_writer (tar_output_dir tar_filepath f) (split_dot_first (basename f))
                (snd (convert_from_tar e tar_file f (tar_output_dir tar_filepath f) tmp
                        (os_makedirs (tar_output_dir tar_filepath f) s))))
             (snd (shutil_rmtree (tar_output_dir tar_filepath f)
                (snd (convert_from_tar e tar_file f (tar_output_dir tar_filepath f) tmp
                        (os_makedirs (tar_output_dir tar_filepath f) s)))))"
proof -
  note st = assms(1,3)
  have fr: "frames_of c = []"
    using assms(2) by (cases c) (simp_all add: frames_of_def decodable_def)
  have r: "fst (convert_from_tar e tar_file f d tmp t) = Inr PNone" for d t
    by (rule convert_from_tar_result [OF st])
  have l: "log (snd (convert_from_tar e tar_file f output_dir tmp s)) =
           log s @ [(ERROR, ''Error opening video stream or file!'')]"
    using assms(2) by (simp add: convert_from_tar_log [OF st])
  have c: "calls (snd (convert_from_tar e tar_file f output_dir tmp s)) =
           calls s @ [CallExtract f tmp, CallCapture (path_join tmp f), CallRelease,
                      CallRemove (path_join tmp f)]"
    by (simp add: convert_from_tar_calls [OF st] fr)
  have fl: "files (snd (convert_from_tar e tar_file f output_dir tmp s)) =
           filter (\<lambda>x. fst x \<noteq> path_join tmp f) (files s)"
    by (rule undecodable_files [OF st assms(2)])
  have fo: "folder_entries e tar_file tar_filepath tmp (f # fs) s =
           folder_entries e tar_file tar_filepath tmp fs
             (snd (convert_from_tar e tar_file f (folder_output_dir tar_filepath f) tmp
                     (os_makedirs (folder_output_dir tar_filepath f) s)))"
    using r [of "folder_output_dir tar_filepath f" "os_makedirs (folder_output_dir tar_filepath f) s"]
      assms(4)
    by (auto simp: folder_output_dir_def split: prod.splits sum.splits)
  have ta: "tar_entries e tar_file tar_filepath tmp (f # fs) tar_writer s =
           tar_entries e tar_file tar_filepath tmp fs
             (add_file tar_writer (tar_output_dir tar_filepath f) (split_dot_first (basename f))
                (snd (convert_from_tar e tar_file f (tar_output_dir tar_filepath f) tmp
                        (os_makedirs (tar_output_dir tar_filepath f) s))))
             (snd (shutil_rmtree (tar_output_dir tar_filepath f)
                (snd (convert_from_tar e tar_file f (tar_output_dir tar_filepath f) tmp
                        (os_makedirs (tar_output_dir tar_filepath f) s)))))"
    using r [of "tar_output_dir tar_filepath f" "os_makedirs (tar_output_dir tar_filepath f) s"]
      rmtree_after_makedirs [OF st, of "tar_output_dir tar_filepath f" s] assms(4)
    by (auto simp: Let_def split: prod.splits sum.splits)
  show ?thesis
    using r l c fl fo ta by blast
qed

theorem undecodable_video_logged_and_skipped_witness:
  "map_of (members example_reader) ''bad.mp4'' = Some Other
   \<and> \<not> decodable Other
   \<and> writable example_env (path_join ''/tmp/'' ''bad.mp4'')
   \<and> endswith ''bad.mp4'' ''.mp4''
   \<and> fst (convert_from_tar example_env example_reader ''bad.mp4'' ''out'' ''/tmp/'' example_world)
       = Inr PNone
   \<and> log (snd (convert_from_tar example_env example_reader ''bad.mp4'' ''out'' ''/tmp/'' example_world))
       = [(ERROR, ''Error opening video stream or file!'')]
   \<and> calls (snd (convert_from_tar example_env example_reader ''bad.mp4'' ''out'' ''/tmp/'' example_world))
       = [CallExtract ''bad.mp4'' ''/tmp/'', CallCapture ''/tmp/bad.mp4'', CallRelease,
          CallRemove ''/tmp/bad.mp4'']
   \<and> files (snd (convert_from_tar example_env example_reader ''bad.mp4'' ''out'' ''/tmp/'' example_world))
       = []
   \<and> folder_entries example_env example_reader ''videos.tar'' ''/tmp/'' [''bad.mp4'', ''clip1.mp4'']
         example_world =
       folder_entries example_env example_reader ''videos.tar'' ''/tmp/'' [''clip1.mp4'']
         (snd (convert_from_tar example_env example_reader ''bad.mp4''
                 (folder_output_dir ''videos.tar'' ''bad.mp4'') ''/tmp/''
                 (os_makedirs (folder_output_dir ''videos.tar'' ''bad.mp4'') example_world)))"
proof -
  have h1: "map_of (members example_reader) ''bad.mp4'' = Some Other"
    by (simp add: example_reader_def)
  have h2: "\<not> decodable Other"
    by (simp add: decodable_def)
  have h3: "writable example_env (path_join ''/tmp/'' ''bad.mp4'')"
    by (simp add: example_env_def)
  have h4: "endswith ''bad.mp4'' ''.mp4''"
    by (simp add: endswith_def)
  have pj: "path_join ''/tmp/'' ''bad.mp4'' = ''/tmp/bad.mp4''"
    by (simp add: path_join_def startswith_def endswith_def)
  have w: "log example_world = []" "calls example_world = []" "files example_world = []"
    by (simp_all add: example_world_def)
  show ?thesis
    using h1 h2 h3 h4
      undecodable_video_logged_and_skipped [OF h1 h2 h3 h4, of "''out''" example_world
        "''videos.tar''" "[''clip1.mp4'']"]
    by (simp add: pj w)
qed

section \<open>The frame count\<close>

lemma frames_written_run:
  assumes "map_of (members rd) name = Some (Video rs)" and "writable e (path_join tmp name)"
  shows "frames_written (new_calls s (snd (convert_from_tar e rd name out tmp s))) =
         length (decoded_frames rs)"
  by (simp add: convert_from_tar_new_calls [OF assms] frames_written_append
      frames_written_imwrites frames_of_def)
     (simp add: frames_written_def)

text \<open>
  Claim C8, amended. \<open>convert_from_tar\<close> returns \<^verbatim>\<open>None\<close>, not the count. For a staged
  video that the decoder opens, the number of frame writes it makes, which is the
  value of \<open>frame_id\<close> when the loop ends, is the number of frames decoded before the
  first unsuccessful read; it depends on the video alone, so decoding the same video
  again, in whatever archive, directory and world, makes the same number of writes.
\<close>

theorem frame_count_not_returned_but_deterministic:
  assumes "map_of (members tar_file) video_name = Some (Video rs)"
    and "writable e (path_join tmp video_name)"
    and "map_of (members tar_file') video_name' = Some (Video rs)"
    and "writable e' (path_join tmp' video_name')"
  shows "fst (convert_from_tar e tar_file video_name output_dir tmp s) = Inr PNone
       \<and> frames_written (new_calls s (snd (convert_from_tar e tar_file video_name output_dir tmp s)))
           = length (decoded_frames rs)
       \<and> fst (frame_loop e output_dir \<lparr>opened = True, pending = rs\<rparr> 0 s)
           = length (decoded_frames rs)
       \<and> frames_written (new_calls s' (snd (convert_from_tar e' tar_file' video_name' output_dir' tmp' s')))
           = frames_written (new_calls s (snd (convert_from_tar e tar_file video_name output_dir tmp s)))"
proof -
  have "frame_loop e output_dir \<lparr>opened = True, pending = rs\<rparr> 0 s =
        (0 + length (decoded_frames rs),
         \<lparr>opened = True, pending = rs\<rparr>\<lparr>pending := drop (Suc (length (decoded_frames rs))) rs\<rparr>,
         write_frames e output_dir (enumerate 0 (decoded_frames rs)) s)"
    by (rule frame_loop_fold) simp_all
  then show ?thesis
    by (simp add: convert_from_tar_result [OF assms(1,2)] frames_written_run [OF assms(1,2)]
        frames_written_run [OF assms(3,4)])
qed

theorem frame_count_not_returned_but_deterministic_witness:
  "map_of (members example_reader) ''clip1.mp4'' = Some (Video [Some 7, Some 8, None, Some 9])
   \<and> writable example_env (path_join ''/tmp/'' ''clip1.mp4'')
   \<and> fst (convert_from_tar example_env example_reader ''clip1.mp4'' ''out'' ''/tmp/'' example_world)
       = Inr PNone
   \<and> frames_written (new_calls example_world
         (snd (convert_from_tar example_env example_reader ''clip1.mp4'' ''out'' ''/tmp/'' example_world)))
       = 2
   \<and> fst (frame_loop example_env ''out'' \<lparr>opened = True, pending = [Some 7, Some 8, None, Some 9]\<rparr> 0
            example_world) = 2
   \<and> frames_written (new_calls example_world
         (snd (convert_from_tar example_env example_reader ''clip1.mp4'' ''elsewhere'' ''/tmp/''
                 example_world)))
       = frames_written (new_calls example_world
         (snd (convert_from_tar example_env example_reader ''clip1.mp4'' ''out'' ''/tmp/'' example_world)))"
proof -
  have h1: "map_of (members example_reader) ''clip1.mp4'' = Some (Video [Some 7, Some 8, None, Some 9])"
    by (simp add: example_reader_def)
  have h2: "writable example_env (path_join ''/tmp/'' ''clip1.mp4'')"
    by (simp add: example_env_def)
  show ?thesis
    using h1 h2
      frame_count_not_returned_but_deterministic [OF h1 h2 h1 h2, where output_dir = "''out''"
        and s = example_world and output_dir' = "''elsewhere''" and s' = example_world]
    by simp
qed

theorem return_value_is_not_the_frame_count:
  "frames_written (new_calls example_world
       (snd (convert_from_tar example_env example_reader ''clip1.mp4'' ''out'' ''/tmp/'' example_world)))
     = 2
   \<and> fst (convert_from_tar example_env example_reader ''clip1.mp4'' ''out'' ''/tmp/'' example_world)
       \<noteq> Inr (PInt 2)"
proof -
  have h1: "map_of (members example_reader) ''clip1.mp4'' = Some (Video [Some 7, Some 8, None, Some 9])"
    by (simp add: example_reader_def)
  have h2: "writable example_env (path_join ''/tmp/'' ''clip1.mp4'')"
    by (simp add: example_env_def)
  show ?thesis
    by (simp add: convert_from_tar_result [OF h1 h2] frames_written_run [OF h1 h2])
qed

section \<open>The staging path\<close>

lemma path_join_inj:
  "\<not> startswith a ''/'' \<Longrightarrow> \<not> startswith b ''/'' \<Longrightarrow> path_join d a = path_join d b \<Longrightarrow> a = b"
  by (simp add: path_join_relative)

lemma convert_from_tar_capture_paths:
  assumes "map_of (members rd) name = Some c" and "writable e (path_join tmp name)"
  shows "capture_paths (new_calls s (snd (convert_from_tar e rd name out tmp s))) = [path_join tmp name]"
  by (simp add: convert_from_tar_new_calls [OF assms] capture_paths_append capture_paths_imwrites)
     (simp add: capture_paths_def)

text \<open>
  Claim C4, amended. The path a member is staged at, opened from and removed from is
  \<^verbatim>\<open>os.path.join(tmp_dir, video_name)\<close>: it is fixed by the scratch root and the entry
  name, whatever the archive, and under one scratch root two relative entry names
  that differ are staged at different paths.
\<close>

theorem staging_path_keyed_by_entry_name_only:
  assumes "map_of (members tar_file) video_name = Some c"
    and "writable e (path_join tmp video_name)"
  shows "capture_paths (new_calls s (snd (convert_from_tar e tar_file video_name output_dir tmp s)))
           = [path_join tmp video_name]
       \<and> map_of (files (snd (extract_file e tar_file video_name tmp s))) (path_join tmp video_name)
           = Some c
       \<and> (\<forall>other. \<not> startswith video_name ''/'' \<and> \<not> startswith other ''/''
                    \<and> path_join tmp video_name = path_join tmp other
                  \<longrightarrow> other = video_name)"
proof -
  have "capture_paths (new_calls s (snd (convert_from_tar e tar_file video_name output_dir tmp s)))
           = [path_join tmp video_name]"
    by (rule convert_from_tar_capture_paths [OF assms])
  moreover have "map_of (files (snd (extract_file e tar_file video_name tmp s)))
                   (path_join tmp video_name) = Some c"
    using assms by (simp add: extract_file_def record_call_files map_of_put_file)
  ultimately show ?thesis
    using path_join_inj [of video_name _ tmp] by auto
qed

theorem staging_path_keyed_by_entry_name_only_witness:
  "map_of (members other_reader) ''clip1.mp4'' = Some (Video [Some 1])
   \<and> writable example_env (path_join ''/tmp/'' ''clip1.mp4'')
   \<and> capture_paths (new_calls example_world
         (snd (convert_from_tar example_env other_reader ''clip1.mp4'' ''out'' ''/tmp/'' example_world)))
       = [''/tmp/clip1.mp4'']
   \<and> map_of (files (snd (extract_file example_env other_reader ''clip1.mp4'' ''/tmp/'' example_world)))
         ''/tmp/clip1.mp4'' = Some (Video [Some 1])"
proof -
  have h1: "map_of (members other_reader) ''clip1.mp4'' = Some (Video [Some 1])"
    by (simp add: other_reader_def)
  have h2: "writable example_env (path_join ''/tmp/'' ''clip1.mp4'')"
    by (simp add: example_env_def)
  have pj: "path_join ''/tmp/'' ''clip1.mp4'' = ''/tmp/clip1.mp4''"
    by (simp add: path_join_def startswith_def endswith_def)
  show ?thesis
    using h1 h2 staging_path_keyed_by_entry_name_only [OF h1 h2, where output_dir = "''out''"
        and s = example_world]
    by (simp add: pj)
qed

theorem two_archives_stage_at_one_path:
  "rpath example_reader \<noteq> rpath other_reader
   \<and> capture_paths (new_calls example_world
         (snd (convert_from_tar example_env example_reader ''clip1.mp4'' ''out'' ''/tmp/'' example_world)))
     = capture_paths (new_calls example_world
         (snd (convert_from_tar example_env other_reader ''clip1.mp4'' ''out'' ''/tmp/'' example_world)))
   \<and> files (snd (extract_file example_env other_reader ''clip1.mp4'' ''/tmp/''
         (snd (extract_file example_env example_reader ''clip1.mp4'' ''/tmp/'' example_world))))
     = [(''/tmp/clip1.mp4'', Video [Some 1])]"
proof -
  have h1: "map_of (members example_reader) ''clip1.mp4'' = Some (Video [Some 7, Some 8, None, Some 9])"
    by (simp add: example_reader_def)
  have h2: "writable example_env (path_join ''/tmp/'' ''clip1.mp4'')"
    by (simp add: example_env_def)
  have h3: "map_of (members other_reader) ''clip1.mp4'' = Some (Video [Some 1])"
    by (simp add: other_reader_def)
  have pj: "path_join ''/tmp/'' ''clip1.mp4'' = ''/tmp/clip1.mp4''"
    by (simp add: path_join_def startswith_def endswith_def)
  have a: "rpath example_reader \<noteq> rpath other_reader"
    by (simp add: example_reader_def other_reader_def)
  have b: "capture_paths (new_calls example_world
         (snd (convert_from_tar example_env example_reader ''clip1.mp4'' ''out'' ''/tmp/'' example_world)))
     = capture_paths (new_calls example_world
         (snd (convert_from_tar example_env other_reader ''clip1.mp4'' ''out'' ''/tmp/'' example_world)))"
    by (simp add: convert_from_tar_capture_paths [OF h1 h2] convert_from_tar_capture_paths [OF h3 h2])
  have c: "files (snd (extract_file example_env other_reader ''clip1.mp4'' ''/tmp/''
         (snd (extract_file example_env example_reader ''clip1.mp4'' ''/tmp/'' example_world))))
     = [(''/tmp/clip1.mp4'', Video [Some 1])]"
    using h1 h2 h3
    by (simp add: extract_file_def record_call_files put_file_def pj example_world_def)
  show ?thesis
    using a b c by blast
qed

section \<open>An archive that cannot be opened\<close>

lemma open_failed_raises: "open_failed tar_filepath x s = (Inl TypeError, s)"
  by (simp add: open_failed_def)

lemma unopened_archive_raises:
  assumes "archive e tar_filepath = None"
  shows "convert_to_tar e tar_filepath tmp b s = (Inl TypeError, s)"
    and "convert_to_folder e tar_filepath tmp b s = (Inl TypeError, s)"
  using assms
  by (simp_all add: convert_to_tar_def convert_to_folder_def TarArchiveReader_def open_failed_raises)

text \<open>
  Claim C3 (a defect of the code). When the archive cannot be opened, the handler
  raises TypeError while building its message, in both modes: nothing is logged, the
  job does not return normally, and the sequential loop of \<open>main\<close> stops before the jobs
  that follow.
\<close>

theorem open_failure_handler_raises_type_error:
  "convert_to_tar example_env ''missing.tar'' ''/tmp/'' False example_world
     = (Inl TypeError, example_world)
   \<and> convert_to_folder example_env ''missing.tar'' ''/tmp/'' False example_world
     = (Inl TypeError, example_world)
   \<and> run_jobs example_env Folder ''/tmp/'' [''missing.tar'', ''videos.tar''] example_world
     = (Inl TypeError, logger_info ''Processing missing.tar'' example_world)"
proof -
  have "archive example_env ''missing.tar'' = None"
    by (simp add: example_env_def)
  then show ?thesis
    by (simp add: unopened_archive_raises CONVERT_MAP_def)
qed

section \<open>A pattern that matches nothing\<close>





section \<open>Members that are not videos\<close>

lemma folder_entries_filter:
  "folder_entries e rd tp tmp fl s =
   folder_entries e rd tp tmp (filter (\<lambda>f. endswith f ''.mp4'') fl) s"
  by (induction fl arbitrary: s) (simp_all split: prod.splits sum.splits)

lemma tar_entries_filter:
  "tar_entries e rd tp tmp fl w s =
   tar_entries e rd tp tmp (filter (\<lambda>f. endswith f ''.mp4'') fl) w s"
  by (induction fl arbitrary: w s) (simp_all add: Let_def split: prod.splits sum.splits)

lemma map_of_filter_fst:
  "map_of (filter (\<lambda>m. endswith (fst m) suf) ms) k = (if endswith k suf then map_of ms k else None)"
  by (induction ms) auto

lemma write_frames_env: "writable e' = writable e \<Longrightarrow> write_frames e' out ifs s = write_frames e out ifs s"
  by (simp add: write_frames_def imwrite_def)

lemma frame_loop_env:
  assumes "writable e' = writable e"
  shows "frame_loop e' out v k s = frame_loop e out v k s"
proof (cases "opened v")
  case True
  then show ?thesis
    by (simp add: frame_loop_fold [OF True refl] write_frames_env [OF assms])
next
  case False
  then show ?thesis
    by (simp add: frame_loop_closed)
qed

lemma convert_from_tar_videos_only:
  assumes "writable e' = writable e"
    and "members rd' = filter (\<lambda>m. endswith (fst m) ''.mp4'') (members rd)"
    and "endswith f ''.mp4''"
  shows "convert_from_tar e' rd' f out tmp s = convert_from_tar e rd f out tmp s"
proof -
  have ex: "extract_file e' rd' f tmp s = extract_file e rd f tmp s"
    using assms by (simp add: extract_file_def map_of_filter_fst split: option.splits)
  have fl: "frame_loop e' = frame_loop e"
    by (intro ext) (rule frame_loop_env [OF assms(1)])
  show ?thesis
    unfolding convert_from_tar_def ex fl ..
qed

lemma folder_entries_videos_only:
  assumes "writable e' = writable e"
    and "members rd' = filter (\<lambda>m. endswith (fst m) ''.mp4'') (members rd)"
  shows "folder_entries e' rd' tp tmp fl s = folder_entries e rd tp tmp fl s"
  by (induction fl arbitrary: s)
     (simp_all add: convert_from_tar_videos_only [OF assms] split: prod.splits sum.splits)

lemma tar_entries_videos_only:
  assumes "writable e' = writable e"
    and "members rd' = filter (\<lambda>m. endswith (fst m) ''.mp4'') (members rd)"
  shows "tar_entries e' rd' tp tmp fl w s = tar_entries e rd tp tmp fl w s"
  by (induction fl arbitrary: w s)
     (simp_all add: convert_from_tar_videos_only [OF assms] Let_def split: prod.splits sum.splits)

lemma get_list_videos_only:
  "members rd' = filter (\<lambda>m. endswith (fst m) ''.mp4'') (members rd) \<Longrightarrow>
   get_list rd' = filter (\<lambda>f. endswith f ''.mp4'') (get_list rd)"
  by (simp add: get_list_def filter_map comp_def)

lemma open_videos_only:
  "TarArchiveReader (drop_non_videos e) tp =
     (case TarArchiveReader e tp of
        Inl x \<Rightarrow> Inl x
      | Inr rd \<Rightarrow> Inr (rd\<lparr>members := filter (\<lambda>m. endswith (fst m) ''.mp4'') (members rd)\<rparr>))"
  by (simp add: TarArchiveReader_def drop_non_videos_def split: option.splits)

lemma convert_to_folder_videos_only:
  "convert_to_folder (drop_non_videos e) tp tmp b s = convert_to_folder e tp tmp b s"
proof (cases "TarArchiveReader e tp")
  case (Inl x)
  then show ?thesis
    by (simp add: convert_to_folder_def open_videos_only)
next
  case (Inr rd)
  let ?rd' = "rd\<lparr>members := filter (\<lambda>m. endswith (fst m) ''.mp4'') (members rd)\<rparr>"
  have w: "writable (drop_non_videos e) = writable e"
    by (simp add: drop_non_videos_def)
  have m: "members ?rd' = filter (\<lambda>m. endswith (fst m) ''.mp4'') (members rd)"
    by simp
  have "folder_entries (drop_non_videos e) ?rd' tp tmp (get_list ?rd') s =
        folder_entries e rd tp tmp (get_list rd) s"
    unfolding folder_entries_videos_only [OF w m] get_list_videos_only [OF m]
    by (rule folder_entries_filter [symmetric])
  then show ?thesis
    using Inr by (simp add: convert_to_folder_def open_videos_only)
qed

lemma convert_to_tar_videos_only:
  "convert_to_tar (drop_non_videos e) tp tmp b s = convert_to_tar e tp tmp b s"
proof (cases "TarArchiveReader e tp")
  case (Inl x)
  then show ?thesis
    by (simp add: convert_to_tar_def open_videos_only)
next
  case (Inr rd)
  let ?rd' = "rd\<lparr>members := filter (\<lambda>m. endswith (fst m) ''.mp4'') (members rd)\<rparr>"
  have w: "writable (drop_non_videos e) = writable e"
    by (simp add: drop_non_videos_def)
  have m: "members ?rd' = filter (\<lambda>m. endswith (fst m) ''.mp4'') (members rd)"
    by simp
  have wr: "TarArchiveWriter (drop_non_videos e) p s = TarArchiveWriter e p s" for p
    by (simp add: TarArchiveWriter_def w)
  have lp: "tar_entries (drop_non_videos e) ?rd' tp tmp (get_list ?rd') =
        tar_entries e rd tp tmp (get_list rd)"
    unfolding tar_entries_videos_only [OF w m] get_list_videos_only [OF m]
    by (intro ext) (rule tar_entries_filter [symmetric])
  have cl: "reader_close ?rd' = reader_close rd"
    by (intro ext) (simp add: reader_close_def)
  have op: "TarArchiveReader (drop_non_videos e) tp = Inr ?rd'"
    using Inr by (simp add: open_videos_only)
  show ?thesis
    unfolding convert_to_tar_def op Inr sum.case wr lp cl ..
qed

text \<open>
  Claim C9. The loops of both modes do to a list of member names what they do to its
  names that end in \<^verbatim>\<open>.mp4\<close>, and each conversion does to an archive what it does to
  the archive without its other members: result, files, directories, output
  archives, log and calls are the same, so a member that is not a video is not
  staged, decoded or emitted, and it is no error.
\<close>

theorem non_video_members_have_no_effect:
  "folder_entries e tar_file tar_filepath tmp file_list s =
     folder_entries e tar_file tar_filepath tmp (filter (\<lambda>f. endswith f ''.mp4'') file_list) s
   \<and> tar_entries e tar_file tar_filepath tmp file_list tar_writer s =
     tar_entries e tar_file tar_filepath tmp (filter (\<lambda>f. endswith f ''.mp4'') file_list) tar_writer s
   \<and> convert_to_folder e tar_filepath tmp b s =
     convert_to_folder (drop_non_videos e) tar_filepath tmp b s
   \<and> convert_to_tar e tar_filepath tmp b s =
     convert_to_tar (drop_non_videos e) tar_filepath tmp b s"
  using folder_entries_filter [of e tar_file tar_filepath tmp file_list s]
    tar_entries_filter [of e tar_file tar_filepath tmp file_list tar_writer s]
  by (simp add: convert_to_folder_videos_only convert_to_tar_videos_only)

section \<open>The output archive\<close>

lemma tar_not_straddling:
  assumes "take 4 (c # cs) \<noteq> ''.tar''"
  shows "take 4 (c # cs @ ''.tar'') \<noteq> ''.tar''"
proof (cases cs)
  case Nil
  then show ?thesis by simp
next
  case (Cons a as)
  note c1 = this
  show ?thesis
  proof (cases as)
    case Nil
    then show ?thesis using c1 by simp
  next
    case (Cons b bs)
    note c2 = this
    show ?thesis
    proof (cases bs)
      case Nil
      then show ?thesis using c1 c2 by simp
    next
      case (Cons d ds)
      then show ?thesis using c1 c2 assms by simp
    qed
  qed
qed

lemma str_replace_tar_suffix:
  "\<not> str_contains ''.tar'' stem \<Longrightarrow> str_replace ''.tar'' new (stem @ ''.tar'') = stem @ new"
proof (induction stem)
  case Nil
  then show ?case by simp
next
  case (Cons c cs)
  have len: "length ''.tar'' = 4"
    by simp
  have here: "take 4 (c # cs) \<noteq> ''.tar''" and rest: "\<not> str_contains ''.tar'' cs"
    using Cons.prems unfolding str_contains.simps len by blast+
  have no: "take (length ''.tar'') (c # cs @ ''.tar'') \<noteq> ''.tar''"
    unfolding len by (rule tar_not_straddling [OF here])
  have "str_replace ''.tar'' new ((c # cs) @ ''.tar'') = c # str_replace ''.tar'' new (cs @ ''.tar'')"
    using no by (simp only: append_Cons str_replace.simps) simp
  then show ?case
    using Cons.IH [OF rest] by simp
qed




section \<open>Entries of the output archive\<close>

lemma rmtree_archives: "archives (snd (shutil_rmtree d s)) = archives s"
  by (simp add: shutil_rmtree_def record_call_def)

lemma tar_entries_ok:
  assumes "list_all (\<lambda>f. map_of (members rd) f \<noteq> None \<and> writable e (path_join tmp f))
             (filter (\<lambda>f. endswith f ''.mp4'') fl)"
  shows "\<exists>w' s'. tar_entries e rd tp tmp fl w s = (Inr w', s')
           \<and> wpath w' = wpath w
           \<and> map fst (added w') = map fst (added w) @ map arcname_of (filter (\<lambda>f. endswith f ''.mp4'') fl)
           \<and> archives s' = archives s"
  using assms
proof (induction fl arbitrary: w s)
  case Nil
  then show ?case by simp
next
  case (Cons f fs)
  show ?case
  proof (cases "endswith f ''.mp4''")
    case False
    then show ?thesis
      using Cons by simp
  next
    case True
    let ?d = "tar_output_dir tp f"
    let ?s1 = "snd (convert_from_tar e rd f ?d tmp (os_makedirs ?d s))"
    let ?w1 = "add_file w ?d (split_dot_first (basename f)) ?s1"
    let ?s2 = "snd (shutil_rmtree ?d ?s1)"
    from Cons.prems True obtain c where m: "map_of (members rd) f = Some c"
      and wr: "writable e (path_join tmp f)"
      and rest: "list_all (\<lambda>f. map_of (members rd) f \<noteq> None \<and> writable e (path_join tmp f))
                   (filter (\<lambda>f. endswith f ''.mp4'') fs)"
      by auto
    have r1: "fst (convert_from_tar e rd f ?d tmp (os_makedirs ?d s)) = Inr PNone"
      by (rule convert_from_tar_result [OF m wr])
    have r2: "fst (shutil_rmtree ?d ?s1) = Inr PNone"
      by (rule rmtree_after_makedirs [OF m wr])
    have step: "tar_entries e rd tp tmp (f # fs) w s = tar_entries e rd tp tmp fs ?w1 ?s2"
      using True r1 r2 by (auto simp: Let_def split: prod.splits sum.splits)
    have a2: "archives ?s2 = archives s"
      by (simp add: rmtree_archives convert_from_tar_dirs [OF m wr] os_makedirs_def record_call_def)
    from Cons.IH [OF rest, of ?w1 ?s2] obtain w' s' where
      ih: "tar_entries e rd tp tmp fs ?w1 ?s2 = (Inr w', s')" "wpath w' = wpath ?w1"
        "map fst (added w') = map fst (added ?w1) @ map arcname_of (filter (\<lambda>f. endswith f ''.mp4'') fs)"
        "archives s' = archives ?s2"
      by blast
    show ?thesis
      unfolding step using ih True a2 by (simp add: add_file_def arcname_of_def)
  qed
qed

lemma members_found: "list_all (\<lambda>f. map_of ms f \<noteq> None) (map fst ms)"
  by (simp add: list_all_iff map_of_eq_None_iff)

lemma basename_plain: "CHR ''/'' \<notin> set b \<Longrightarrow> basename b = b"
proof -
  assume "CHR ''/'' \<notin> set b"
  then have "takeWhile (\<lambda>c. c \<noteq> CHR ''/'') (rev b) = rev b"
    by (auto simp: takeWhile_eq_all_conv)
  then show ?thesis
    unfolding basename_def by (simp only: rev_rev_ident)
qed

lemma basename_append:
  "CHR ''/'' \<notin> set b \<Longrightarrow> basename (d @ ''/'' @ b) = b"
proof -
  assume "CHR ''/'' \<notin> set b"
  then have "takeWhile (\<lambda>c. c \<noteq> CHR ''/'') (rev b @ CHR ''/'' # rev d) = rev b"
    by (subst takeWhile_append2) auto
  then show ?thesis
    by (simp add: basename_def)
qed

lemma split_dot_first_stem: "CHR ''.'' \<notin> set b \<Longrightarrow> split_dot_first (b @ CHR ''.'' # ext) = b"
  unfolding split_dot_first_def by (subst takeWhile_append2) auto

text \<open>
  Claim C6, amended. For an archive path \<^verbatim>\<open><stem>.tar\<close> in which \<^verbatim>\<open>.tar\<close> occurs as the
  suffix only, when the archive opens, the output archive can be created and every
  video member can be staged, \<open>convert_to_tar\<close> returns normally and leaves at
  \<^verbatim>\<open><stem>_decompressed.tar\<close> a finalized archive with one entry per video member, in
  the archive's order, named by what precedes the first dot of the member's base
  name; that is the base name without its extension when the base name has no other
  dot.
\<close>

theorem output_archive_named_and_filled:
  assumes "archive e tar_filepath = Some ms"
    and "tar_filepath = stem @ ''.tar''"
    and "\<not> str_contains ''.tar'' stem"
    and "writable e (stem @ ''_decompressed.tar'')"
    and "list_all (\<lambda>f. writable e (path_join tmp f)) (filter (\<lambda>f. endswith f ''.mp4'') (map fst ms))"
  shows "fst (convert_to_tar e tar_filepath tmp b s) = Inr PNone
       \<and> map_option finalized
           (map_of (archives (snd (convert_to_tar e tar_filepath tmp b s)))
              (stem @ ''_decompressed.tar'')) = Some True
       \<and> map_option (\<lambda>a. map fst (entries a))
           (map_of (archives (snd (convert_to_tar e tar_filepath tmp b s)))
              (stem @ ''_decompressed.tar''))
           = Some (map (\<lambda>f. split_dot_first (basename f))
                    (filter (\<lambda>f. endswith f ''.mp4'') (map fst ms)))
       \<and> (\<forall>d name. CHR ''/'' \<notin> set name \<and> CHR ''.'' \<notin> set name \<longrightarrow>
             split_dot_first (basename (d @ ''/'' @ name @ ''.mp4'')) = name
             \<and> split_dot_first (basename (name @ ''.mp4'')) = name)"
proof -
  let ?out = "stem @ ''_decompressed.tar''"
  let ?rd = "\<lparr>rpath = tar_filepath, members = ms\<rparr>"
  let ?w = "\<lparr>wpath = ?out, added = []\<rparr>"
  let ?s1 = "record_call (CallWriterCreate ?out)
              (s\<lparr>archives := (?out, \<lparr>entries = [], finalized = False\<rparr>)
                                 # filter (\<lambda>a. fst a \<noteq> ?out) (archives s)\<rparr>)"
  have out: "str_replace ''.tar'' ''_decompressed.tar'' tar_filepath = ?out"
    unfolding assms(2) by (rule str_replace_tar_suffix [OF assms(3)])
  have cr: "TarArchiveWriter e ?out s = (Inr ?w, ?s1)"
    using assms(4) by (simp add: TarArchiveWriter_def)
  have "list_all (\<lambda>f. map_of (members ?rd) f \<noteq> None \<and> writable e (path_join tmp f))
          (filter (\<lambda>f. endswith f ''.mp4'') (map fst ms))"
    using assms(5) members_found [of ms] by (auto simp: list_all_iff)
  from tar_entries_ok [OF this, of tar_filepath ?w ?s1] obtain w' s' where
    lp: "tar_entries e ?rd tar_filepath tmp (map fst ms) ?w ?s1 = (Inr w', s')"
      and wp: "wpath w' = ?out"
      and ad: "map fst (added w') = map arcname_of (filter (\<lambda>f. endswith f ''.mp4'') (map fst ms))"
    by auto
  have run: "convert_to_tar e tar_filepath tmp b s = (Inr PNone, writer_close w' (reader_close ?rd s'))"
    using assms(1) by (simp add: convert_to_tar_def TarArchiveReader_def out cr get_list_def lp)
  have ar: "map_of (archives (writer_close w' t)) ?out = Some \<lparr>entries = added w', finalized = True\<rparr>"
    for t
    by (simp add: writer_close_def record_call_def wp)
  have names: "split_dot_first (basename (d @ ''/'' @ name @ ''.mp4'')) = name
             \<and> split_dot_first (basename (name @ ''.mp4'')) = name"
    if "CHR ''/'' \<notin> set name \<and> CHR ''.'' \<notin> set name" for d name
  proof -
    have "CHR ''/'' \<notin> set (name @ ''.mp4'')"
      using that by simp
    then have "basename (d @ ''/'' @ name @ ''.mp4'') = name @ ''.mp4''"
      and "basename (name @ ''.mp4'') = name @ ''.mp4''"
      by (rule basename_append, rule basename_plain)
    then show ?thesis
      using that split_dot_first_stem [of name "''mp4''"] by simp
  qed
  show ?thesis
    using names by (simp add: run ar ad arcname_of_def)
qed

theorem output_archive_named_and_filled_witness:
  "archive example_env ''videos.tar'' = Some (members example_reader)
   \<and> ''videos.tar'' = ''videos'' @ ''.tar''
   \<and> \<not> str_contains ''.tar'' ''videos''
   \<and> writable example_env (''videos'' @ ''_decompressed.tar'')
   \<and> list_all (\<lambda>f. writable example_env (path_join ''/tmp/'' f))
         (filter (\<lambda>f. endswith f ''.mp4'') (map fst (members example_reader)))
   \<and> fst (convert_to_tar example_env ''videos.tar'' ''/tmp/'' False example_world) = Inr PNone
   \<and> map_option finalized
         (map_of (archives (snd (convert_to_tar example_env ''videos.tar'' ''/tmp/'' False example_world)))
            ''videos_decompressed.tar'') = Some True
   \<and> map_option (\<lambda>a. map fst (entries a))
         (map_of (archives (snd (convert_to_tar example_env ''videos.tar'' ''/tmp/'' False example_world)))
            ''videos_decompressed.tar'') = Some [''clip1'', ''bad'']"
proof -
  have h1: "archive example_env ''videos.tar'' = Some (members example_reader)"
    by (simp add: example_env_def)
  have h2: "''videos.tar'' = ''videos'' @ ''.tar''"
    by simp
  have h3: "\<not> str_contains ''.tar'' ''videos''"
    by simp
  have h4: "writable example_env (''videos'' @ ''_decompressed.tar'')"
    by (simp add: example_env_def)
  have h5: "list_all (\<lambda>f. writable example_env (path_join ''/tmp/'' f))
         (filter (\<lambda>f. endswith f ''.mp4'') (map fst (members example_reader)))"
    by (simp add: example_env_def list_all_iff)
  have names: "map (\<lambda>f. split_dot_first (basename f))
         (filter (\<lambda>f. endswith f ''.mp4'') (map fst (members example_reader))) = [''clip1'', ''bad'']"
    by (simp add: example_reader_def endswith_def basename_def split_dot_first_def)
  show ?thesis
    using h1 h3 h4 h5
      output_archive_named_and_filled [OF h1 h2 h3 h4 h5, where b = False and s = example_world]
    by (simp add: names)
qed

theorem dotted_names_break_output_naming:
  "map_of (archives (snd (convert_to_tar dotted_env ''backup.tar/videos.tar'' ''/tmp/'' False
            example_world))) ''backup.tar/videos_decompressed.tar'' = None
   \<and> map (\<lambda>a. (fst a, map fst (entries (snd a))))
         (archives (snd (convert_to_tar dotted_env ''backup.tar/videos.tar'' ''/tmp/'' False
            example_world)))
       = [(''backup_decompressed.tar/videos_decompressed.tar'', [''clip''])]"
  by code_simp

end
